theory Spec2Isabelle
  imports Main "HOL-Library.Sublist" "HOL-Library.Char_ord" "HOL-Library.List_Lexorder"
begin

section \<open>Data model\<close>

text \<open>
  \<^verbatim>\<open>lib/types.ts\<close>: the \<^verbatim>\<open>Bookmark\<close> interface. Every field is a JavaScript
  string. The field \<^verbatim>\<open>id\<close> is written \<open>id_bm\<close> here, since \<open>id\<close> is HOL's
  identity function.
\<close>

record bookmark =
  id_bm :: string
  user_id :: string
  title :: string
  url :: string
  created_at :: string

section \<open>The session view: \<^verbatim>\<open>components/Dashboard.tsx\<close>\<close>

text \<open>
  \<^verbatim>\<open>Dashboard\<close> holds the view in \<^verbatim>\<open>useState<Bookmark[]>(initialBookmarks)\<close>.
  Each callback passes an updater \<^verbatim>\<open>(prev) => ...\<close> to \<^verbatim>\<open>setBookmarks\<close>; the
  functions below are these updaters, with the callback's argument first and
  \<^verbatim>\<open>prev\<close> second. \<^verbatim>\<open>prev.some(p)\<close> is \<open>list_ex p prev\<close>,
  \<^verbatim>\<open>[newBookmark, ...prev]\<close> is \<open>newBookmark # prev\<close> and \<^verbatim>\<open>prev.filter(p)\<close> is
  \<open>filter p prev\<close>.
\<close>

definition handleBookmarkAdded :: "bookmark \<Rightarrow> bookmark list \<Rightarrow> bookmark list" where
  "handleBookmarkAdded newBookmark prev =
     (if list_ex (\<lambda>b. id_bm b = id_bm newBookmark) prev then prev
      else newBookmark # prev)"

definition handleBookmarkDeleted :: "string \<Rightarrow> bookmark list \<Rightarrow> bookmark list" where
  "handleBookmarkDeleted i prev = filter (\<lambda>b. id_bm b \<noteq> i) prev"

definition handleRealtimeInsert :: "bookmark \<Rightarrow> bookmark list \<Rightarrow> bookmark list" where
  "handleRealtimeInsert newBookmark prev =
     (if list_ex (\<lambda>b. id_bm b = id_bm newBookmark) prev then prev
      else newBookmark # prev)"

definition handleRealtimeDelete :: "string \<Rightarrow> bookmark list \<Rightarrow> bookmark list" where
  "handleRealtimeDelete i prev = filter (\<lambda>b. id_bm b \<noteq> i) prev"

text \<open>
  The calls reaching the view, in the order React applies their updaters: one
  constructor for each of the four callbacks.
\<close>

datatype view_call =
    BookmarkAdded bookmark
  | BookmarkDeleted string
  | RealtimeInsert bookmark
  | RealtimeDelete string

fun apply_call :: "view_call \<Rightarrow> bookmark list \<Rightarrow> bookmark list" where
  "apply_call (BookmarkAdded b) prev = handleBookmarkAdded b prev"
| "apply_call (BookmarkDeleted i) prev = handleBookmarkDeleted i prev"
| "apply_call (RealtimeInsert b) prev = handleRealtimeInsert b prev"
| "apply_call (RealtimeDelete i) prev = handleRealtimeDelete i prev"

fun apply_calls :: "bookmark list \<Rightarrow> view_call list \<Rightarrow> bookmark list" where
  "apply_calls view [] = view"
| "apply_calls view (c # cs) = apply_calls (apply_call c view) cs"

text \<open>A run of insert calls alone, through either insert callback.\<close>

fun is_insert :: "view_call \<Rightarrow> bool" where
  "is_insert (BookmarkAdded b) = True"
| "is_insert (RealtimeInsert b) = True"
| "is_insert (BookmarkDeleted i) = False"
| "is_insert (RealtimeDelete i) = False"

fun inserted_ids :: "view_call list \<Rightarrow> string list" where
  "inserted_ids [] = []"
| "inserted_ids (BookmarkAdded b # cs) = id_bm b # inserted_ids cs"
| "inserted_ids (RealtimeInsert b # cs) = id_bm b # inserted_ids cs"
| "inserted_ids (c # cs) = inserted_ids cs"

definition ids :: "bookmark list \<Rightarrow> string list" where
  "ids view = map id_bm view"

definition occurrences :: "string \<Rightarrow> bookmark list \<Rightarrow> nat" where
  "occurrences i view = length (filter (\<lambda>b. id_bm b = i) view)"

text \<open>Two rows used to run the definitions: \<open>B2\<close> was created a day after \<open>B1\<close>.\<close>

definition B1 :: bookmark where
  "B1 = \<lparr>id_bm = ''b1'', user_id = ''alice'', title = ''Docs'',
          url = ''https://supabase.com/docs'', created_at = ''2026-01-01T00:00:00Z''\<rparr>"

definition B2 :: bookmark where
  "B2 = \<lparr>id_bm = ''b2'', user_id = ''alice'', title = ''Example'',
          url = ''https://example.com'', created_at = ''2026-01-02T00:00:00Z''\<rparr>"

subsection \<open>Newest first\<close>

text \<open>
  \<^verbatim>\<open>created_at\<close> is a timestamp written as text. The order of the view is an order
  of instants, so the reading of a timestamp is a parameter \<open>instant\<close> into any
  linear order; nothing in the reducers looks at it.
\<close>

definition newest_first :: "(string \<Rightarrow> 'a::linorder) \<Rightarrow> bookmark list \<Rightarrow> bool" where
  "newest_first instant view =
     sorted_wrt (\<lambda>a b. instant (created_at b) \<le> instant (created_at a)) view"

definition no_earlier :: "(string \<Rightarrow> 'a::linorder) \<Rightarrow> bookmark \<Rightarrow> bookmark list \<Rightarrow> bool" where
  "no_earlier instant b view =
     list_all (\<lambda>x. instant (created_at x) \<le> instant (created_at b)) view"

text \<open>
  A run of calls arrives in creation order when each inserted bookmark was created
  no earlier than every bookmark in the view at the moment of its call. Deletes may
  stand anywhere.
\<close>

fun creation_order :: "(string \<Rightarrow> 'a::linorder) \<Rightarrow> bookmark list \<Rightarrow> view_call list \<Rightarrow> bool" where
  "creation_order instant view [] = True"
| "creation_order instant view (BookmarkAdded b # cs) =
     (no_earlier instant b view \<and> creation_order instant (handleBookmarkAdded b view) cs)"
| "creation_order instant view (RealtimeInsert b # cs) =
     (no_earlier instant b view \<and> creation_order instant (handleRealtimeInsert b view) cs)"
| "creation_order instant view (BookmarkDeleted i # cs) =
     creation_order instant (handleBookmarkDeleted i view) cs"
| "creation_order instant view (RealtimeDelete i # cs) =
     creation_order instant (handleRealtimeDelete i view) cs"

section \<open>The add form: \<^verbatim>\<open>components/BookmarkForm.tsx\<close>\<close>

subsection \<open>Strings\<close>

text \<open>
  A JavaScript string is a sequence of UTF-16 code units; here it is a \<open>string\<close>, a
  list of 8-bit characters, so the model covers the strings whose code units are
  below 256. \<^verbatim>\<open>trim\<close> removes white space and line terminators at both ends; below
  256 these are TAB, LF, VT, FF, CR, the space and the no-break space.
\<close>

definition is_space :: "char \<Rightarrow> bool" where
  "is_space c \<longleftrightarrow>
     c \<in> set [CHR 0x09, CHR 0x0A, CHR 0x0B, CHR 0x0C, CHR 0x0D, CHR 0x20, CHR 0xA0]"

definition trim :: "string \<Rightarrow> string" where
  "trim s = rev (dropWhile is_space (rev (dropWhile is_space s)))"

definition startsWith :: "string \<Rightarrow> string \<Rightarrow> bool" where
  "startsWith s p \<longleftrightarrow> take (length p) s = p"

definition includes_chr :: "string \<Rightarrow> char \<Rightarrow> bool" where
  "includes_chr s c \<longleftrightarrow> c \<in> set s"

text \<open>\<^verbatim>\<open>hostname.split(".")\<close>: the pieces between the dots; one piece for a string without a dot.\<close>

fun split_dot :: "string \<Rightarrow> string list" where
  "split_dot [] = [[]]"
| "split_dot (c # cs) =
     (if c = CHR ''.'' then [] # split_dot cs
      else (case split_dot cs of
              [] \<Rightarrow> [[c]]
            | p # ps \<Rightarrow> (c # p) # ps))"

text \<open>
  \<^verbatim>\<open>parts[k]\<close> for an integer index \<open>k\<close>: \<^verbatim>\<open>undefined\<close> (here \<open>None\<close>) outside the
  array.
\<close>

definition at_index :: "'a list \<Rightarrow> int \<Rightarrow> 'a option" where
  "at_index xs k = (if 0 \<le> k \<and> k < int (length xs) then Some (xs ! nat k) else None)"

definition is_letter :: "char \<Rightarrow> bool" where
  "is_letter c \<longleftrightarrow> (CHR ''a'' \<le> c \<and> c \<le> CHR ''z'') \<or> (CHR ''A'' \<le> c \<and> c \<le> CHR ''Z'')"

definition is_digit :: "char \<Rightarrow> bool" where
  "is_digit c \<longleftrightarrow> CHR ''0'' \<le> c \<and> c \<le> CHR ''9''"

text \<open>The pattern \<^verbatim>\<open>/^[a-zA-Z]{2,6}$/\<close>.\<close>

definition tld_pattern :: "string \<Rightarrow> bool" where
  "tld_pattern t \<longleftrightarrow> 2 \<le> length t \<and> length t \<le> 6 \<and> list_all is_letter t"

text \<open>The pattern \<^verbatim>\<open>/^[a-zA-Z0-9.-]+$/\<close>.\<close>

definition hostname_pattern :: "string \<Rightarrow> bool" where
  "hostname_pattern h \<longleftrightarrow>
     h \<noteq> [] \<and> list_all (\<lambda>c. is_letter c \<or> is_digit c \<or> c = CHR ''.'' \<or> c = CHR ''-'') h"

subsection \<open>\<^verbatim>\<open>normaliseUrl\<close> and \<^verbatim>\<open>validate\<close>\<close>

definition normaliseUrl :: "string \<Rightarrow> string" where
  "normaliseUrl raw =
     (let trimmed = trim raw in
      if \<not> startsWith trimmed ''http://'' \<and> \<not> startsWith trimmed ''https://''
      then ''https://'' @ trimmed
      else trimmed)"

text \<open>
  \<^verbatim>\<open>new URL(text)\<close> is the platform's URL parser, not code of the repository.
  \<^verbatim>\<open>validate\<close> reads two fields of its result, and its \<^verbatim>\<open>catch\<close> takes the
  parser's exception. So the parser is a parameter of \<open>validate\<close>: a function from
  the text to the two fields, \<open>None\<close> when it throws.
\<close>

record parsed_url =
  protocol :: string
  hostname :: string

type_synonym url_parser = "string \<Rightarrow> parsed_url option"

definition validate :: "url_parser \<Rightarrow> string \<Rightarrow> string \<Rightarrow> string option" where
  "validate new_URL title_v url_v =
     (if trim title_v = [] then Some ''Title is required.''
      else if trim url_v = [] then Some ''URL is required.''
      else
        (case new_URL (normaliseUrl url_v) of
           None \<Rightarrow> Some ''Please enter a valid URL (e.g. https://example.com).''
         | Some parsed \<Rightarrow>
             if protocol parsed \<notin> set [''http:'', ''https:'']
             then Some ''URL must use http:// or https://.''
             else
               let host = hostname parsed in
               if \<not> includes_chr host CHR ''.''
               then Some ''Please enter a real URL with a domain (e.g. https://example.com).''
               else
                 let parts = split_dot host in
                 if list_ex (\<lambda>p. length p = 0) parts
                 then Some ''Please enter a valid URL (e.g. https://example.com).''
                 else
                   (case at_index parts (int (length parts) - 1) of
                      None \<Rightarrow> Some ''Please enter a valid URL (e.g. https://example.com).''
                    | Some tld \<Rightarrow>
                        if \<not> tld_pattern tld
                        then Some ''Please enter a valid URL (e.g. https://example.com).''
                        else
                          (case at_index parts (int (length parts) - 2) of
                             None \<Rightarrow> Some ''Please enter a valid URL (e.g. https://example.com).''
                           | Some domain \<Rightarrow>
                               if length domain < 1
                               then Some ''Please enter a valid URL (e.g. https://example.com).''
                               else if \<not> hostname_pattern host
                               then Some ''URL contains invalid characters.''
                               else None))))"

text \<open>
  In \<open>validate\<close>, \<^verbatim>\<open>parts[parts.length - 1]\<close> outside the array would be
  \<^verbatim>\<open>undefined\<close>, which the pattern test reads as the nine letters of that word and
  refuses; \<^verbatim>\<open>!domain\<close> holds for \<^verbatim>\<open>undefined\<close> and for the empty string.
\<close>

subsection \<open>A reading of the URL parser\<close>

text \<open>
  To run \<open>validate\<close> a parser is needed. \<open>URL_simple\<close> follows the URL Standard's
  state machine on the texts \<open>normaliseUrl\<close> produces, which start with
  \<^verbatim>\<open>http://\<close> or \<^verbatim>\<open>https://\<close>: further slashes are skipped, the authority runs
  up to the first \<^verbatim>\<open>/\<close>, backslash, \<^verbatim>\<open>?\<close> or \<^verbatim>\<open>#\<close>, credentials end at its last
  \<^verbatim>\<open>@\<close>, the host runs up to the first \<^verbatim>\<open>:\<close> and a port follows it. It answers
  for hosts written with ASCII letters, digits, \<^verbatim>\<open>-\<close> and \<^verbatim>\<open>.\<close> whose last label
  is not a number and which have no \<^verbatim>\<open>xn--\<close> label (the standard lower-cases these
  and keeps them), with an empty port or a decimal port up to 65535. On every other
  text it gives \<open>None\<close>; the platform's parser accepts some of those (IPv4 and IPv6
  addresses, other code points), so \<open>URL_simple\<close> stands for the platform only
  where it answers \<open>Some\<close> or the host is empty.
\<close>

definition to_lower :: "char \<Rightarrow> char" where
  "to_lower c =
     (if CHR ''A'' \<le> c \<and> c \<le> CHR ''Z'' then char_of (of_char c + (32::nat)) else c)"

definition after_last_at :: "string \<Rightarrow> string" where
  "after_last_at a = rev (takeWhile (\<lambda>c. c \<noteq> CHR ''@'') (rev a))"

definition is_number_label :: "string \<Rightarrow> bool" where
  "is_number_label l \<longleftrightarrow>
     l \<noteq> [] \<and> (list_all is_digit l \<or> startsWith (map to_lower l) ''0x'')"

definition last_label :: "string \<Rightarrow> string" where
  "last_label h =
     (let ls = split_dot h;
          ls' = (if 1 < length ls \<and> last ls = [] then butlast ls else ls)
      in last ls')"

fun decimal :: "string \<Rightarrow> int" where
  "decimal [] = 0"
| "decimal (c # cs) = (of_char c - 48) * 10 ^ length cs + decimal cs"

definition port_ok :: "string \<Rightarrow> bool" where
  "port_ok p \<longleftrightarrow>
     p = [] \<or> (hd p = CHR '':'' \<and> list_all is_digit (tl p) \<and> decimal (tl p) \<le> 65535)"

definition host_simple :: "string \<Rightarrow> string option" where
  "host_simple h =
     (if h \<noteq> [] \<and> hostname_pattern h \<and> \<not> is_number_label (last_label h)
         \<and> \<not> list_ex (\<lambda>l. startsWith (map to_lower l) ''xn--'') (split_dot h)
      then Some (map to_lower h)
      else None)"

definition scheme_simple :: "string \<Rightarrow> string option" where
  "scheme_simple text =
     (if startsWith text ''https://'' then Some ''https''
      else if startsWith text ''http://'' then Some ''http''
      else None)"

definition hostname_simple :: "string \<Rightarrow> string \<Rightarrow> string option" where
  "hostname_simple sch text =
     (let rest = dropWhile (\<lambda>c. c = CHR ''/'' \<or> c = CHR 0x5C) (drop (length sch + 3) text);
          authority = takeWhile (\<lambda>c. c \<notin> set [CHR ''/'', CHR 0x5C, CHR ''?'', CHR ''#'']) rest;
          hostport = after_last_at authority;
          h = takeWhile (\<lambda>c. c \<noteq> CHR '':'') hostport;
          p = dropWhile (\<lambda>c. c \<noteq> CHR '':'') hostport
      in if \<not> port_ok p then None else host_simple h)"

definition URL_simple :: url_parser where
  "URL_simple text =
     (case scheme_simple text of
        None \<Rightarrow> None
      | Some sch \<Rightarrow>
          (case hostname_simple sch text of
             None \<Rightarrow> None
           | Some h \<Rightarrow> Some \<lparr>protocol = sch @ '':'', hostname = h\<rparr>))"

text \<open>
  What \<open>validate\<close> relies on when it tests the protocol: the parser reports the
  scheme the text starts with.
\<close>

definition reads_scheme :: "url_parser \<Rightarrow> bool" where
  "reads_scheme new_URL \<longleftrightarrow>
     (\<forall>s u. new_URL s = Some u \<longrightarrow>
        (startsWith s ''https://'' \<longrightarrow> protocol u = ''https:'') \<and>
        (startsWith s ''http://'' \<longrightarrow> protocol u = ''http:''))"

section \<open>The page as one state\<close>

text \<open>
  The state variables of the three client components, in one record:
  \<open>bookmarks\<close> of \<^verbatim>\<open>Dashboard\<close>; \<open>deletingIds\<close>, \<open>deleteError\<close>,
  \<open>realtimeStatus\<close> and \<open>isMounted\<close> of \<^verbatim>\<open>BookmarkList\<close>; and \<^verbatim>\<open>title\<close>,
  \<^verbatim>\<open>url\<close> (written \<open>title_st\<close>, \<open>url_st\<close>: the bookmark has fields of these
  names), \<open>isSubmitting\<close>, \<open>error\<close> and \<open>success\<close> of \<^verbatim>\<open>BookmarkForm\<close>.
  A call of a state setter is the update of the field at the place of the call:
  React queues the updaters and applies them in the order of the calls.
\<close>

datatype realtime_status = Connecting | Connected | Error

record session =
  bookmarks :: "bookmark list"
  deletingIds :: "string set"
  deleteError :: "string option"
  realtimeStatus :: realtime_status
  isMounted :: bool
  title_st :: string
  url_st :: string
  isSubmitting :: bool
  error :: "string option"
  success :: bool

text \<open>The \<^verbatim>\<open>useState\<close> initial values, with the snapshot the page hands to the Dashboard.\<close>

definition mount :: "bookmark list \<Rightarrow> session" where
  "mount initialBookmarks =
     \<lparr>bookmarks = initialBookmarks, deletingIds = {}, deleteError = None,
      realtimeStatus = Connecting, isMounted = False, title_st = [], url_st = [],
      isSubmitting = False, error = None, success = False\<rparr>"

text \<open>The four callbacks the Dashboard passes down, as updates of the page.\<close>

definition onBookmarkAdded :: "bookmark \<Rightarrow> session \<Rightarrow> session" where
  "onBookmarkAdded b s = s\<lparr>bookmarks := handleBookmarkAdded b (bookmarks s)\<rparr>"

definition onBookmarkDeleted :: "string \<Rightarrow> session \<Rightarrow> session" where
  "onBookmarkDeleted i s = s\<lparr>bookmarks := handleBookmarkDeleted i (bookmarks s)\<rparr>"

definition onRealtimeInsert :: "bookmark \<Rightarrow> session \<Rightarrow> session" where
  "onRealtimeInsert b s = s\<lparr>bookmarks := handleRealtimeInsert b (bookmarks s)\<rparr>"

definition onRealtimeDelete :: "string \<Rightarrow> session \<Rightarrow> session" where
  "onRealtimeDelete i s = s\<lparr>bookmarks := handleRealtimeDelete i (bookmarks s)\<rparr>"

text \<open>
  What a handler asks of the outside: the requests to the Store and to the identity
  provider, the focus of the title field and the timer of the success indicator.
\<close>

datatype effect =
    Store_delete string
  | Store_select
  | Auth_getUser
  | Store_insert string string string
  | Focus_title
  | Set_timeout nat

section \<open>The list: \<^verbatim>\<open>components/BookmarkList.tsx\<close>\<close>

subsection \<open>The change-feed listeners of \<^verbatim>\<open>startRealtime(userId)\<close>\<close>

text \<open>
  The \<^verbatim>\<open>INSERT\<close> listener reads the whole new row. The \<^verbatim>\<open>DELETE\<close> listener
  reads \<^verbatim>\<open>payload.old.id\<close> alone; the old row of the feed may or may not carry
  the owner.
\<close>

record old_row =
  old_id :: string
  old_user_id :: "string option"

definition insert_listener :: "string \<Rightarrow> bookmark \<Rightarrow> session \<Rightarrow> session" where
  "insert_listener userId newBookmark s =
     (if user_id newBookmark \<noteq> userId then s else onRealtimeInsert newBookmark s)"

definition delete_listener :: "string \<Rightarrow> old_row \<Rightarrow> session \<Rightarrow> session" where
  "delete_listener userId old s = (let deletedId = old_id old in onRealtimeDelete deletedId s)"

definition subscribe_callback :: "string \<Rightarrow> session \<Rightarrow> session" where
  "subscribe_callback status s =
     (if status = ''SUBSCRIBED'' then s\<lparr>realtimeStatus := Connected\<rparr>
      else if status = ''CHANNEL_ERROR'' \<or> status = ''TIMED_OUT''
      then s\<lparr>realtimeStatus := Error\<rparr>
      else s)"

subsection \<open>\<^verbatim>\<open>handleDelete\<close>\<close>

text \<open>
  \<^verbatim>\<open>handleDelete\<close> is an \<^verbatim>\<open>async\<close> function with two \<^verbatim>\<open>await\<close>s. It is cut at
  them: each piece runs without interruption, takes the answer the previous
  \<^verbatim>\<open>await\<close> waited for, and returns the page with the requests it has issued.
  Other callbacks may run between two pieces. The Store's answer to the delete is
  its \<^verbatim>\<open>error\<close> (\<open>None\<close>, or the error's message); the answer to the select is
  its \<^verbatim>\<open>data\<close> (\<open>None\<close>, or the rows).
\<close>

definition handleDelete_begin :: "string \<Rightarrow> session \<Rightarrow> session \<times> effect list" where
  "handleDelete_begin i s =
     (let s1 = s\<lparr>deleteError := None\<rparr>;
          s2 = onBookmarkDeleted i s1;
          s3 = s2\<lparr>deletingIds := insert i (deletingIds s2)\<rparr>
      in (s3, [Store_delete i]))"

definition handleDelete_end :: "string \<Rightarrow> session \<Rightarrow> session" where
  "handleDelete_end i s = s\<lparr>deletingIds := deletingIds s - {i}\<rparr>"

definition handleDelete_after_delete ::
    "string \<Rightarrow> string option \<Rightarrow> session \<Rightarrow> session \<times> effect list" where
  "handleDelete_after_delete i err s =
     (case err of
        None \<Rightarrow> (handleDelete_end i s, [])
      | Some message \<Rightarrow>
          (s\<lparr>deleteError := Some (''Failed to delete: '' @ message)\<rparr>, [Store_select]))"

text \<open>\<^verbatim>\<open>data.forEach((b) => onRealtimeInsert(b))\<close>.\<close>

fun forEach_onRealtimeInsert :: "bookmark list \<Rightarrow> session \<Rightarrow> session" where
  "forEach_onRealtimeInsert [] s = s"
| "forEach_onRealtimeInsert (b # bs) s = forEach_onRealtimeInsert bs (onRealtimeInsert b s)"

definition handleDelete_after_select ::
    "string \<Rightarrow> bookmark list option \<Rightarrow> session \<Rightarrow> session \<times> effect list" where
  "handleDelete_after_select i data s =
     (let s1 = (case data of None \<Rightarrow> s | Some rows \<Rightarrow> forEach_onRealtimeInsert rows s)
      in (handleDelete_end i s1, []))"

text \<open>The whole of \<^verbatim>\<open>handleDelete\<close> when nothing else runs between its pieces.\<close>

definition handleDelete ::
    "string \<Rightarrow> string option \<Rightarrow> bookmark list option \<Rightarrow> session \<Rightarrow> session" where
  "handleDelete i err data s =
     (let s1 = fst (handleDelete_begin i s);
          s2 = fst (handleDelete_after_delete i err s1)
      in case err of
           None \<Rightarrow> s2
         | Some message \<Rightarrow> fst (handleDelete_after_select i data s2))"

subsection \<open>What \<^verbatim>\<open>BookmarkList\<close> returns\<close>

text \<open>
  The component returns its empty state ("No bookmarks yet") when the view is empty,
  before anything else is rendered. Otherwise it returns the listing: the number of
  bookmarks, the status label, the error box \<^verbatim>\<open>{deleteError && ...}\<close> (present when
  \<open>deleteError\<close> is set and is not the empty string) and the rows. Of the markup
  this content is kept.
\<close>

datatype rendered =
    Empty_state
  | Listing nat string "string option" "bookmark list"

definition statusLabel :: "session \<Rightarrow> string" where
  "statusLabel s =
     (if realtimeStatus s = Connected then ''Live''
      else if realtimeStatus s = Error then ''Disconnected''
      else ''Connecting...'')"

definition render_BookmarkList :: "session \<Rightarrow> rendered" where
  "render_BookmarkList s =
     (if length (bookmarks s) = 0 then Empty_state
      else Listing (length (bookmarks s)) (statusLabel s)
             (case deleteError s of
                None \<Rightarrow> None
              | Some m \<Rightarrow> if m = [] then None else Some m)
             (bookmarks s))"

text \<open>The delete error the user sees.\<close>

fun shown_deleteError :: "rendered \<Rightarrow> string option" where
  "shown_deleteError Empty_state = None"
| "shown_deleteError (Listing n label box rows) = box"

subsection \<open>\<^verbatim>\<open>handleSubmit\<close> of the form\<close>

text \<open>
  Cut at its two \<^verbatim>\<open>await\<close>s in the same way. The pieces after the first
  \<^verbatim>\<open>await\<close> read \<^verbatim>\<open>title\<close> and \<^verbatim>\<open>url\<close> from the closure of the submit, so the
  second piece takes these two values as arguments. The identity provider answers
  with the user's id or none; the Store answers the insert with \<^verbatim>\<open>data\<close> and
  \<^verbatim>\<open>error\<close>.
\<close>

definition handleSubmit_begin :: "url_parser \<Rightarrow> session \<Rightarrow> session \<times> effect list" where
  "handleSubmit_begin new_URL s =
     (let s1 = s\<lparr>error := None\<rparr> in
      case validate new_URL (title_st s) (url_st s) of
        Some validationError \<Rightarrow> (s1\<lparr>error := Some validationError\<rparr>, [])
      | None \<Rightarrow> (s1\<lparr>isSubmitting := True\<rparr>, [Auth_getUser]))"

definition handleSubmit_after_getUser ::
    "string \<Rightarrow> string \<Rightarrow> string option \<Rightarrow> session \<Rightarrow> session \<times> effect list" where
  "handleSubmit_after_getUser title_v url_v user s =
     (case user of
        None \<Rightarrow>
          (s\<lparr>error := Some ''You must be logged in to add bookmarks.'',
             isSubmitting := False\<rparr>, [])
      | Some uid \<Rightarrow>
          let normalizedUrl = normaliseUrl url_v
          in (s, [Store_insert (trim title_v) normalizedUrl uid]))"

definition handleSubmit_after_insert ::
    "bookmark option \<Rightarrow> string option \<Rightarrow> session \<Rightarrow> session \<times> effect list" where
  "handleSubmit_after_insert data insertError s =
     (let s1 = s\<lparr>isSubmitting := False\<rparr> in
      case insertError of
        Some message \<Rightarrow> (s1\<lparr>error := Some message\<rparr>, [])
      | None \<Rightarrow>
          let s2 = (case data of None \<Rightarrow> s1 | Some d \<Rightarrow> onBookmarkAdded d s1);
              s3 = s2\<lparr>title_st := [], url_st := [], success := True\<rparr>
          in (s3, [Focus_title, Set_timeout 2000]))"


section \<open>Everything that can happen to the page\<close>

text \<open>
  One event for each callback the components register: the user's typing and clicks,
  the answers the \<^verbatim>\<open>await\<close>s wait for, the timer, and what the change feed sends
  (the subscription's status and the two kinds of row notification, with the
  \<^verbatim>\<open>userId\<close> the subscription was opened for).
\<close>

datatype event =
    Mounted
  | Title_typed string
  | Url_typed string
  | Submit_clicked
  | GetUser_returned string string "string option"
  | Insert_returned "bookmark option" "string option"
  | Timeout_fired
  | Delete_clicked string
  | Delete_returned string "string option"
  | Select_returned string "bookmark list option"
  | Subscribe_status string
  | Insert_payload string bookmark
  | Delete_payload string old_row

fun step :: "url_parser \<Rightarrow> event \<Rightarrow> session \<Rightarrow> session" where
  "step new_URL Mounted s = s\<lparr>isMounted := True\<rparr>"
| "step new_URL (Title_typed v) s = s\<lparr>title_st := v\<rparr>"
| "step new_URL (Url_typed v) s = s\<lparr>url_st := v\<rparr>"
| "step new_URL Submit_clicked s = fst (handleSubmit_begin new_URL s)"
| "step new_URL (GetUser_returned title_v url_v user) s =
     fst (handleSubmit_after_getUser title_v url_v user s)"
| "step new_URL (Insert_returned data insertError) s =
     fst (handleSubmit_after_insert data insertError s)"
| "step new_URL Timeout_fired s = s\<lparr>success := False\<rparr>"
| "step new_URL (Delete_clicked i) s = fst (handleDelete_begin i s)"
| "step new_URL (Delete_returned i err) s = fst (handleDelete_after_delete i err s)"
| "step new_URL (Select_returned i data) s = fst (handleDelete_after_select i data s)"
| "step new_URL (Subscribe_status status) s = subscribe_callback status s"
| "step new_URL (Insert_payload userId newBookmark) s = insert_listener userId newBookmark s"
| "step new_URL (Delete_payload userId old) s = delete_listener userId old s"

fun run :: "url_parser \<Rightarrow> event list \<Rightarrow> session \<Rightarrow> session" where
  "run new_URL [] s = s"
| "run new_URL (e # es) s = run new_URL es (step new_URL e s)"

fun user_action :: "event \<Rightarrow> bool" where
  "user_action (Title_typed v) = True"
| "user_action (Url_typed v) = True"
| "user_action Submit_clicked = True"
| "user_action (Delete_clicked i) = True"
| "user_action e = False"

text \<open>A page to run the handlers on: two rows in the view and a filled form.\<close>

definition S1 :: session where
  "S1 = (mount [B2, B1])\<lparr>title_st := ''Docs'', url_st := ''example.com''\<rparr>"

text \<open>A row of another user.\<close>

definition B3 :: bookmark where
  "B3 = \<lparr>id_bm = ''b3'', user_id = ''mallory'', title = ''Other'',
          url = ''https://example.org'', created_at = ''2026-01-03T00:00:00Z''\<rparr>"

section \<open>The reducers\<close>

lemma insert_handlers_agree: "handleBookmarkAdded b view = handleRealtimeInsert b view"
  by (simp add: handleBookmarkAdded_def handleRealtimeInsert_def)

lemma delete_handlers_agree: "handleBookmarkDeleted i view = handleRealtimeDelete i view"
  by (simp add: handleBookmarkDeleted_def handleRealtimeDelete_def)

lemma list_ex_ids: "list_ex (\<lambda>b. id_bm b = i) view \<longleftrightarrow> i \<in> set (ids view)"
  by (auto simp: list_ex_iff ids_def)

lemma insert_cases:
  "handleRealtimeInsert b view = (if id_bm b \<in> set (ids view) then view else b # view)"
  by (simp add: handleRealtimeInsert_def list_ex_ids)

lemma ids_insert:
  "set (ids (handleRealtimeInsert b view)) = insert (id_bm b) (set (ids view))"
  by (auto simp: insert_cases ids_def)

lemma distinct_insert:
  "distinct (ids view) \<Longrightarrow> distinct (ids (handleRealtimeInsert b view))"
  by (auto simp: insert_cases ids_def)

lemma ids_delete: "set (ids (handleRealtimeDelete i view)) = set (ids view) - {i}"
  by (auto simp: handleRealtimeDelete_def ids_def)

lemma distinct_delete:
  "distinct (ids view) \<Longrightarrow> distinct (ids (handleRealtimeDelete i view))"
  by (simp add: handleRealtimeDelete_def ids_def distinct_map_filter)

lemma distinct_apply_call: "distinct (ids view) \<Longrightarrow> distinct (ids (apply_call c view))"
  by (cases c) (simp_all add: insert_handlers_agree delete_handlers_agree
      distinct_insert distinct_delete)

lemma distinct_apply_calls:
  "distinct (ids view) \<Longrightarrow> distinct (ids (apply_calls view cs))"
  by (induction cs arbitrary: view) (simp_all add: distinct_apply_call)

lemma ids_apply_inserts:
  "list_all is_insert cs \<Longrightarrow>
   set (ids (apply_calls view cs)) = set (ids view) \<union> set (inserted_ids cs)"
proof (induction cs arbitrary: view)
  case Nil
  show ?case by simp
next
  case (Cons c cs)
  then show ?case
    by (cases c) (auto simp: insert_handlers_agree ids_insert)
qed

lemma occurrences_distinct:
  "distinct (ids view) \<Longrightarrow>
   occurrences i view = (if i \<in> set (ids view) then 1 else 0)"
proof (induction view)
  case Nil
  show ?case by (simp add: occurrences_def ids_def)
next
  case (Cons b view)
  then show ?case by (auto simp: occurrences_def ids_def)
qed

text \<open>
  C1. \<^verbatim>\<open>applyInsert\<close> (either insert callback of the Dashboard) leaves the view as
  it is when a bookmark with the same identifier is present, and puts the bookmark
  at the front otherwise. Hence, from a view with distinct identifiers, after any
  run of insert calls each identifier of the view or of an inserted bookmark occurs
  in the result exactly once, and no other identifier occurs at all.
\<close>

theorem applyInsert_dedup:
  "handleRealtimeInsert b view = (if id_bm b \<in> set (ids view) then view else b # view)
   \<and> handleBookmarkAdded b view = (if id_bm b \<in> set (ids view) then view else b # view)
   \<and> (distinct (ids view) \<and> list_all is_insert cs \<longrightarrow>
        occurrences i (apply_calls view cs) =
          (if i \<in> set (ids view) \<union> set (inserted_ids cs) then 1 else 0))"
proof -
  have "occurrences i (apply_calls view cs) =
          (if i \<in> set (ids view) \<union> set (inserted_ids cs) then 1 else 0)"
    if d: "distinct (ids view)" and a: "list_all is_insert cs"
  proof -
    have "distinct (ids (apply_calls view cs))"
      using d by (rule distinct_apply_calls)
    then show ?thesis
      by (simp only: occurrences_distinct ids_apply_inserts [OF a])
  qed
  then show ?thesis
    by (simp add: insert_cases insert_handlers_agree)
qed

theorem applyInsert_dedup_witness:
  "distinct (ids [B1])
   \<and> list_all is_insert [RealtimeInsert B2, BookmarkAdded B2, RealtimeInsert B1]
   \<and> handleRealtimeInsert B1 [B1] = [B1]
   \<and> handleBookmarkAdded B1 [B1] = [B1]
   \<and> occurrences ''b2''
        (apply_calls [B1] [RealtimeInsert B2, BookmarkAdded B2, RealtimeInsert B1]) = 1"
  using applyInsert_dedup
    [of B1 "[B1]" "[RealtimeInsert B2, BookmarkAdded B2, RealtimeInsert B1]" "''b2''"]
  by (simp add: ids_def B1_def B2_def)

lemma count_list_filter:
  "count_list (filter P xs) x = (if P x then count_list xs x else 0)"
  by (induction xs) auto

lemma delete_absent: "i \<notin> set (ids view) \<Longrightarrow> handleRealtimeDelete i view = view"
proof -
  assume "i \<notin> set (ids view)"
  then have "\<forall>b\<in>set view. id_bm b \<noteq> i"
    by (auto simp: ids_def)
  then show ?thesis
    unfolding handleRealtimeDelete_def by (rule filter_True)
qed

text \<open>
  C2. \<^verbatim>\<open>applyDelete\<close> (either delete callback of the Dashboard) leaves no
  bookmark with the identifier in the view; the result is a subsequence of the view
  (the order of what stays is kept) in which every other bookmark occurs as often as
  before; and when the identifier is absent the view is returned as it is.
\<close>

theorem applyDelete_exact:
  "i \<notin> set (ids (handleRealtimeDelete i view))
   \<and> subseq (handleRealtimeDelete i view) view
   \<and> count_list (handleRealtimeDelete i view) b =
       (if id_bm b = i then 0 else count_list view b)
   \<and> (i \<notin> set (ids view) \<longrightarrow> handleRealtimeDelete i view = view)
   \<and> handleBookmarkDeleted i view = handleRealtimeDelete i view"
proof -
  have "subseq (handleRealtimeDelete i view) view"
    by (simp add: handleRealtimeDelete_def)
  moreover have "count_list (handleRealtimeDelete i view) b =
       (if id_bm b = i then 0 else count_list view b)"
    by (simp add: handleRealtimeDelete_def count_list_filter)
  ultimately show ?thesis
    by (simp add: ids_delete delete_absent delete_handlers_agree)
qed

theorem applyDelete_exact_witness:
  "''b3'' \<notin> set (ids [B2, B1])
   \<and> handleRealtimeDelete ''b3'' [B2, B1] = [B2, B1]
   \<and> handleBookmarkDeleted ''b3'' [B2, B1] = [B2, B1]
   \<and> handleRealtimeDelete (id_bm B1) [B2, B1] = [B2]"
  using applyDelete_exact [of "''b3''" "[B2, B1]" B1]
  by (simp add: ids_def B1_def B2_def handleRealtimeDelete_def)

lemma newest_first_Cons:
  "newest_first instant (b # view) \<longleftrightarrow>
   no_earlier instant b view \<and> newest_first instant view"
  by (auto simp: newest_first_def no_earlier_def list_all_iff)

lemma newest_first_insert:
  "newest_first instant view \<Longrightarrow> no_earlier instant b view \<Longrightarrow>
   newest_first instant (handleRealtimeInsert b view)"
  by (simp add: insert_cases newest_first_Cons)

lemma newest_first_delete:
  "newest_first instant view \<Longrightarrow> newest_first instant (handleRealtimeDelete i view)"
  by (simp add: newest_first_def handleRealtimeDelete_def sorted_wrt_filter)

text \<open>
  C3. From a snapshot that is newest first, a run of calls in which each inserted
  bookmark was created no earlier than every bookmark then in the view, with delete
  calls anywhere among them, ends in a view that is newest first.
\<close>

theorem newest_first_kept:
  assumes "newest_first instant view" and "creation_order instant view cs"
  shows "newest_first instant (apply_calls view cs)"
  using assms
proof (induction cs arbitrary: view)
  case Nil
  then show ?case by simp
next
  case (Cons c cs)
  show ?case
  proof (cases c)
    case (BookmarkAdded b)
    with Cons.prems have "newest_first instant (handleBookmarkAdded b view)"
      by (simp add: insert_handlers_agree newest_first_insert)
    with Cons.IH Cons.prems BookmarkAdded show ?thesis by simp
  next
    case (BookmarkDeleted i)
    with Cons.prems have "newest_first instant (handleBookmarkDeleted i view)"
      by (simp add: delete_handlers_agree newest_first_delete)
    with Cons.IH Cons.prems BookmarkDeleted show ?thesis by simp
  next
    case (RealtimeInsert b)
    with Cons.prems have "newest_first instant (handleRealtimeInsert b view)"
      by (simp add: newest_first_insert)
    with Cons.IH Cons.prems RealtimeInsert show ?thesis by simp
  next
    case (RealtimeDelete i)
    with Cons.prems have "newest_first instant (handleRealtimeDelete i view)"
      by (simp add: newest_first_delete)
    with Cons.IH Cons.prems RealtimeDelete show ?thesis by simp
  qed
qed

theorem newest_first_kept_witness:
  "newest_first (\<lambda>t. t) [B1]
   \<and> creation_order (\<lambda>t. t) [B1] [RealtimeInsert B2, BookmarkDeleted ''b1'', BookmarkAdded B2]
   \<and> newest_first (\<lambda>t. t)
        (apply_calls [B1] [RealtimeInsert B2, BookmarkDeleted ''b1'', BookmarkAdded B2])
   \<and> apply_calls [B1] [RealtimeInsert B2, BookmarkDeleted ''b1'', BookmarkAdded B2] = [B2]"
proof -
  have 1: "newest_first (\<lambda>t. t) [B1]"
    by (simp add: newest_first_def)
  have 2: "creation_order (\<lambda>t. t) [B1]
      [RealtimeInsert B2, BookmarkDeleted ''b1'', BookmarkAdded B2]"
    by (simp add: no_earlier_def B1_def B2_def handleRealtimeInsert_def
        handleBookmarkDeleted_def)
  have 3: "apply_calls [B1] [RealtimeInsert B2, BookmarkDeleted ''b1'', BookmarkAdded B2] = [B2]"
    by (simp add: B1_def B2_def handleRealtimeInsert_def handleBookmarkDeleted_def
        handleBookmarkAdded_def)
  from newest_first_kept [OF 1 2] 1 2 3 show ?thesis by simp
qed

section \<open>Validation\<close>

lemma validate_blank_title:
  "trim title_v = [] \<Longrightarrow> validate new_URL title_v url_v = Some ''Title is required.''"
  by (simp add: validate_def)

lemma validate_hello:
  assumes "new_URL ''https://hello'' = Some \<lparr>protocol = ''https:'', hostname = ''hello''\<rparr>"
    and "trim t \<noteq> []"
  shows "validate new_URL t ''hello'' =
      Some ''Please enter a real URL with a domain (e.g. https://example.com).''"
proof -
  have n: "normaliseUrl ''hello'' = ''https://hello''" by code_simp
  have u: "trim ''hello'' \<noteq> []" by code_simp
  show ?thesis
    by (simp add: validate_def n u assms includes_chr_def)
qed

lemma split_a_c: "split_dot ''a.c'' = [''a'', ''c'']"
  by code_simp

lemma tld_c: "\<not> tld_pattern ''c''"
  by code_simp

lemma validate_a_c:
  assumes "new_URL ''http://a.c'' = Some \<lparr>protocol = ''http:'', hostname = ''a.c''\<rparr>"
    and "trim t \<noteq> []"
  shows "validate new_URL t ''http://a.c'' =
      Some ''Please enter a valid URL (e.g. https://example.com).''"
proof -
  have n: "normaliseUrl ''http://a.c'' = ''http://a.c''" by code_simp
  have u: "trim ''http://a.c'' \<noteq> []" by code_simp
  show ?thesis
    by (simp add: validate_def n u assms includes_chr_def split_a_c at_index_def tld_c)
qed

lemma normalise_example: "normaliseUrl ''example.com'' = ''https://example.com''"
  by code_simp

lemma validate_accepts_example_com:
  assumes "new_URL ''https://example.com'' =
      Some \<lparr>protocol = ''https:'', hostname = ''example.com''\<rparr>"
    and "trim t \<noteq> []"
  shows "validate new_URL t ''example.com'' = None"
proof -
  have u: "trim ''example.com'' \<noteq> []" by code_simp
  have p: "split_dot ''example.com'' = [''example'', ''com'']" by code_simp
  have tl: "tld_pattern ''com''" by code_simp
  have h: "hostname_pattern ''example.com''" by code_simp
  show ?thesis
    by (simp add: validate_def normalise_example u assms includes_chr_def p at_index_def tl h)
qed

lemma URL_simple_hello:
  "URL_simple ''https://hello'' = Some \<lparr>protocol = ''https:'', hostname = ''hello''\<rparr>"
  by code_simp

lemma URL_simple_a_c:
  "URL_simple ''http://a.c'' = Some \<lparr>protocol = ''http:'', hostname = ''a.c''\<rparr>"
  by code_simp

lemma URL_simple_example:
  "URL_simple ''https://example.com'' =
     Some \<lparr>protocol = ''https:'', hostname = ''example.com''\<rparr>"
  by code_simp

lemma URL_simple_ftp:
  "URL_simple ''https://ftp://example.com'' = Some \<lparr>protocol = ''https:'', hostname = ''ftp''\<rparr>"
  by code_simp

lemma trim_Docs: "trim ''Docs'' \<noteq> []"
  by code_simp

lemma trim_spaces: "trim ''   '' = []"
  by code_simp

text \<open>
  C6. With the parser returning, for the three normalised texts, what the URL
  Standard gives, and a title that is not blank: \<^verbatim>\<open>hello\<close> is refused with the
  "real URL with a domain" message; \<^verbatim>\<open>http://a.c\<close> is refused, its host has a dot,
  its pieces \<^verbatim>\<open>a\<close> and \<^verbatim>\<open>c\<close> are not empty and the last piece \<^verbatim>\<open>c\<close>, of length
  1, fails the top-level pattern; \<^verbatim>\<open>example.com\<close> is normalised to
  \<^verbatim>\<open>https://example.com\<close> and accepted. A title that is empty after trimming, the
  empty title among them, is refused with "Title is required." whatever the address.
\<close>

theorem validate_examples:
  assumes "new_URL ''https://hello'' = Some \<lparr>protocol = ''https:'', hostname = ''hello''\<rparr>"
    and "new_URL ''http://a.c'' = Some \<lparr>protocol = ''http:'', hostname = ''a.c''\<rparr>"
    and "new_URL ''https://example.com'' =
      Some \<lparr>protocol = ''https:'', hostname = ''example.com''\<rparr>"
    and "trim t \<noteq> []"
    and "trim blank = []"
  shows "validate new_URL t ''hello'' =
        Some ''Please enter a real URL with a domain (e.g. https://example.com).''
    \<and> validate new_URL t ''http://a.c'' =
        Some ''Please enter a valid URL (e.g. https://example.com).''
    \<and> includes_chr ''a.c'' CHR ''.''
    \<and> split_dot ''a.c'' = [''a'', ''c'']
    \<and> length ''c'' = 1
    \<and> \<not> tld_pattern ''c''
    \<and> normaliseUrl ''example.com'' = ''https://example.com''
    \<and> validate new_URL t ''example.com'' = None
    \<and> validate new_URL blank u = Some ''Title is required.''
    \<and> validate new_URL [] u = Some ''Title is required.''"
proof -
  have "trim [] = []"
    by (simp add: trim_def)
  then have "validate new_URL [] u = Some ''Title is required.''"
    by (rule validate_blank_title)
  moreover have "validate new_URL blank u = Some ''Title is required.''"
    using assms(5) by (rule validate_blank_title)
  moreover note validate_hello [of new_URL t, OF assms(1,4)]
    validate_a_c [of new_URL t, OF assms(2,4)]
    validate_accepts_example_com [of new_URL t, OF assms(3,4)] split_a_c tld_c normalise_example
  ultimately show ?thesis
    by (simp add: includes_chr_def)
qed

theorem validate_examples_witness:
  "URL_simple ''https://hello'' = Some \<lparr>protocol = ''https:'', hostname = ''hello''\<rparr>
   \<and> URL_simple ''http://a.c'' = Some \<lparr>protocol = ''http:'', hostname = ''a.c''\<rparr>
   \<and> URL_simple ''https://example.com'' =
        Some \<lparr>protocol = ''https:'', hostname = ''example.com''\<rparr>
   \<and> trim ''Docs'' \<noteq> []
   \<and> trim ''   '' = []
   \<and> validate URL_simple ''Docs'' ''hello'' =
        Some ''Please enter a real URL with a domain (e.g. https://example.com).''
   \<and> validate URL_simple ''Docs'' ''http://a.c'' =
        Some ''Please enter a valid URL (e.g. https://example.com).''
   \<and> validate URL_simple ''Docs'' ''example.com'' = None
   \<and> validate URL_simple ''   '' ''example.com'' = Some ''Title is required.''
   \<and> validate URL_simple [] ''example.com'' = Some ''Title is required.''"
  using validate_examples [of URL_simple "''Docs''" "''   ''" "''example.com''"]
    URL_simple_hello URL_simple_a_c URL_simple_example trim_Docs trim_spaces
  by simp

lemma startsWith_append: "startsWith s p \<longleftrightarrow> (\<exists>r. s = p @ r)"
proof
  assume "startsWith s p"
  then have "s = p @ drop (length p) s"
    by (metis startsWith_def append_take_drop_id)
  then show "\<exists>r. s = p @ r" ..
next
  assume "\<exists>r. s = p @ r"
  then show "startsWith s p"
    by (auto simp: startsWith_def)
qed

lemma http_not_https: "startsWith s ''http://'' \<Longrightarrow> \<not> startsWith s ''https://''"
  by (auto simp: startsWith_append)

lemma normaliseUrl_prefix:
  "startsWith (normaliseUrl raw) ''https://'' \<or> startsWith (normaliseUrl raw) ''http://''"
  by (auto simp: normaliseUrl_def Let_def startsWith_def)

lemma reads_scheme_protocol:
  assumes "reads_scheme new_URL" and "new_URL (normaliseUrl raw) = Some u"
  shows "protocol u \<in> set [''http:'', ''https:'']"
proof -
  from assms have
    "(startsWith (normaliseUrl raw) ''https://'' \<longrightarrow> protocol u = ''https:'') \<and>
     (startsWith (normaliseUrl raw) ''http://'' \<longrightarrow> protocol u = ''http:'')"
    unfolding reads_scheme_def by blast
  with normaliseUrl_prefix [of raw] show ?thesis
    by auto
qed

text \<open>
  With any parser that reports the scheme the text starts with, \<open>validate\<close> never
  returns the scheme message: \<open>normaliseUrl\<close> has put \<^verbatim>\<open>https://\<close> in front of every
  text that did not start with \<^verbatim>\<open>http://\<close> or \<^verbatim>\<open>https://\<close>.
\<close>

lemma scheme_message_unreachable:
  assumes "reads_scheme new_URL"
  shows "validate new_URL title_v url_v \<noteq> Some ''URL must use http:// or https://.''"
proof (cases "new_URL (normaliseUrl url_v)")
  case None
  then show ?thesis
    by (simp add: validate_def)
next
  case (Some u)
  with assms have "protocol u \<in> set [''http:'', ''https:'']"
    by (rule reads_scheme_protocol)
  with Some show ?thesis
    by (simp add: validate_def Let_def split: option.splits)
qed

lemma reads_scheme_URL_simple: "reads_scheme URL_simple"
  unfolding reads_scheme_def
proof (intro allI impI conjI)
  fix s u
  assume "URL_simple s = Some u" and "startsWith s ''https://''"
  then show "protocol u = ''https:''"
    by (auto simp: URL_simple_def scheme_simple_def split: option.splits)
next
  fix s u
  assume p: "URL_simple s = Some u" and h: "startsWith s ''http://''"
  from h have "\<not> startsWith s ''https://''"
    by (rule http_not_https)
  with p h show "protocol u = ''http:''"
    by (auto simp: URL_simple_def scheme_simple_def split: option.splits)
qed

text \<open>
  C7. \<^verbatim>\<open>ftp://example.com\<close> does not start with \<^verbatim>\<open>http://\<close> or \<^verbatim>\<open>https://\<close>, so
  \<open>normaliseUrl\<close> makes it \<^verbatim>\<open>https://ftp://example.com\<close>, which the URL Standard
  parses with protocol \<^verbatim>\<open>https:\<close> and host \<^verbatim>\<open>ftp\<close>. The protocol test passes and
  the address is refused for its host without a dot: the message is the "real URL
  with a domain" one, not "URL must use http:// or https://.".
\<close>

theorem validate_ftp:
  assumes "new_URL ''https://ftp://example.com'' =
      Some \<lparr>protocol = ''https:'', hostname = ''ftp''\<rparr>"
    and "trim t \<noteq> []"
  shows "normaliseUrl ''ftp://example.com'' = ''https://ftp://example.com''
    \<and> validate new_URL t ''ftp://example.com'' =
        Some ''Please enter a real URL with a domain (e.g. https://example.com).''
    \<and> validate new_URL t ''ftp://example.com'' \<noteq> Some ''URL must use http:// or https://.''"
proof -
  have n: "normaliseUrl ''ftp://example.com'' = ''https://ftp://example.com''" by code_simp
  have u: "trim ''ftp://example.com'' \<noteq> []" by code_simp
  have "validate new_URL t ''ftp://example.com'' =
        Some ''Please enter a real URL with a domain (e.g. https://example.com).''"
    by (simp add: validate_def n u assms includes_chr_def)
  with n show ?thesis by simp
qed

theorem validate_ftp_witness:
  "URL_simple ''https://ftp://example.com'' = Some \<lparr>protocol = ''https:'', hostname = ''ftp''\<rparr>
   \<and> trim ''Docs'' \<noteq> []
   \<and> validate URL_simple ''Docs'' ''ftp://example.com'' =
        Some ''Please enter a real URL with a domain (e.g. https://example.com).''"
  using validate_ftp [of URL_simple "''Docs''"] URL_simple_ftp trim_Docs
  by simp

section \<open>Deleting\<close>

lemma bookmarks_begin:
  "bookmarks (fst (handleDelete_begin i s)) = handleBookmarkDeleted i (bookmarks s)"
  by (simp add: handleDelete_begin_def onBookmarkDeleted_def Let_def)

lemma bookmarks_after_delete:
  "bookmarks (fst (handleDelete_after_delete i err s)) = bookmarks s"
  by (simp add: handleDelete_after_delete_def handleDelete_end_def split: option.splits)

text \<open>
  C4. The piece of \<^verbatim>\<open>handleDelete\<close> that runs at the click, up to its first
  \<^verbatim>\<open>await\<close>, removes the identifier from the view and then issues the delete
  request, its only request. So the page in which any answer of the Store will
  arrive has no row with the identifier, and a successful answer leaves it so.
\<close>

theorem delete_is_optimistic:
  "snd (handleDelete_begin i s) = [Store_delete i]
   \<and> bookmarks (fst (handleDelete_begin i s)) = handleBookmarkDeleted i (bookmarks s)
   \<and> i \<notin> set (ids (bookmarks (fst (handleDelete_begin i s))))
   \<and> i \<notin> set (ids (bookmarks (step new_URL (Delete_clicked i) s)))
   \<and> i \<notin> set (ids (bookmarks (run new_URL [Delete_clicked i, Delete_returned i None] s)))"
proof -
  have "i \<notin> set (ids (handleBookmarkDeleted i (bookmarks s)))"
    by (simp add: delete_handlers_agree ids_delete)
  then show ?thesis
    by (simp add: bookmarks_begin bookmarks_after_delete)
      (simp add: handleDelete_begin_def Let_def)
qed

theorem delete_is_optimistic_witness:
  "handleDelete_begin ''b1'' S1 =
     (S1\<lparr>bookmarks := [B2], deletingIds := {''b1''}\<rparr>, [Store_delete ''b1''])
   \<and> ''b1'' \<notin> set (ids (bookmarks (fst (handleDelete_begin ''b1'' S1))))"
proof -
  have run: "handleDelete_begin ''b1'' S1 =
     (S1\<lparr>bookmarks := [B2], deletingIds := {''b1''}\<rparr>, [Store_delete ''b1''])"
    by (simp add: handleDelete_begin_def onBookmarkDeleted_def handleBookmarkDeleted_def
        S1_def mount_def B1_def B2_def Let_def)
  have absent: "''b1'' \<notin> set (ids (bookmarks (fst (handleDelete_begin ''b1'' S1))))"
    using delete_is_optimistic [of "''b1''" S1 URL_simple] by blast
  from run absent show ?thesis
    by (rule conjI)
qed

lemma forEach_bookmarks:
  "bookmarks (forEach_onRealtimeInsert rows s) =
   apply_calls (bookmarks s) (map RealtimeInsert rows)"
  by (induction rows arbitrary: s) (simp_all add: onRealtimeInsert_def)

lemma forEach_deleteError:
  "deleteError (forEach_onRealtimeInsert rows s) = deleteError s"
  by (induction rows arbitrary: s) (simp_all add: onRealtimeInsert_def)

lemma suffix_insert: "suffix view (handleRealtimeInsert b view)"
  by (simp add: insert_cases suffix_ConsI)

lemma suffix_inserts: "suffix view (apply_calls view (map RealtimeInsert rows))"
proof (induction rows arbitrary: view)
  case Nil
  show ?case by simp
next
  case (Cons b rows)
  have "suffix view (handleRealtimeInsert b view)"
    by (rule suffix_insert)
  also have "suffix (handleRealtimeInsert b view)
      (apply_calls (handleRealtimeInsert b view) (map RealtimeInsert rows))"
    by (rule Cons.IH)
  finally show ?case by simp
qed

lemma ids_inserts:
  "set (ids (apply_calls view (map RealtimeInsert rows))) = set (ids view) \<union> set (ids rows)"
proof (induction rows arbitrary: view)
  case Nil
  show ?case by (simp add: ids_def)
next
  case (Cons b rows)
  show ?case
    by (simp add: Cons.IH ids_insert) (auto simp: ids_def)
qed

lemma set_suffix: "suffix xs ys \<Longrightarrow> x \<in> set xs \<Longrightarrow> x \<in> set ys"
  by (auto simp: suffix_def)

lemma restored_row:
  "i \<notin> set (ids view) \<Longrightarrow> i \<in> set (ids rows) \<Longrightarrow>
   \<exists>r\<in>set rows. id_bm r = i \<and> r \<in> set (apply_calls view (map RealtimeInsert rows))"
proof (induction rows arbitrary: view)
  case Nil
  then show ?case by (simp add: ids_def)
next
  case (Cons b rows)
  show ?case
  proof (cases "id_bm b = i")
    case True
    with Cons.prems(1) have "b \<in> set (handleRealtimeInsert b view)"
      by (simp add: insert_cases)
    then have "b \<in> set (apply_calls (handleRealtimeInsert b view) (map RealtimeInsert rows))"
      by (rule set_suffix [OF suffix_inserts])
    with True show ?thesis by auto
  next
    case False
    with Cons.prems have "i \<notin> set (ids (handleRealtimeInsert b view))" and "i \<in> set (ids rows)"
      by (auto simp: ids_insert) (auto simp: ids_def)
    then have "\<exists>r\<in>set rows. id_bm r = i \<and>
        r \<in> set (apply_calls (handleRealtimeInsert b view) (map RealtimeInsert rows))"
      by (rule Cons.IH)
    then show ?thesis by auto
  qed
qed

lemma bookmarks_after_select:
  "bookmarks (fst (handleDelete_after_select i (Some rows) s)) =
   apply_calls (bookmarks s) (map RealtimeInsert rows)"
  by (simp add: handleDelete_after_select_def handleDelete_end_def forEach_bookmarks Let_def)

lemma deleteError_after_select:
  "deleteError (fst (handleDelete_after_select i data s)) = deleteError s"
  by (simp add: handleDelete_after_select_def handleDelete_end_def forEach_deleteError
      Let_def split: option.splits)

lemma deleteError_after_delete:
  "deleteError (fst (handleDelete_after_delete i (Some message) s)) =
   Some (''Failed to delete: '' @ message)"
  by (simp add: handleDelete_after_delete_def)

lemma handleDelete_failed:
  "handleDelete i (Some message) data s =
   fst (handleDelete_after_select i data
     (fst (handleDelete_after_delete i (Some message) (fst (handleDelete_begin i s)))))"
  by (simp add: handleDelete_def)

text \<open>
  The recovery. When the Store answers the delete with an error, the message
  \<^verbatim>\<open>Failed to delete: ...\<close> is written to \<open>deleteError\<close> and the select is
  issued. When the select answers with rows, the view becomes the view with every
  row passed through the insert callback, in the order of the answer: every
  identifier of the answer is then in the view, and the view of before is kept as
  its tail, so no row is removed whether the answer has it or not. For the whole of
  \<^verbatim>\<open>handleDelete\<close>: \<open>deleteError\<close> still holds the message at the end; if the
  answer has a row with the deleted identifier, such a row of the answer is in the
  view at the end; and the rows left by the optimistic removal are kept.
\<close>

lemma recovery_feeds_rows:
  "deleteError (fst (handleDelete_after_delete i (Some message) s)) =
       Some (''Failed to delete: '' @ message)
   \<and> snd (handleDelete_after_delete i (Some message) s) = [Store_select]
   \<and> bookmarks (fst (handleDelete_after_select i (Some rows) s)) =
       apply_calls (bookmarks s) (map RealtimeInsert rows)
   \<and> set (ids rows) \<subseteq> set (ids (bookmarks (fst (handleDelete_after_select i (Some rows) s))))
   \<and> suffix (bookmarks s) (bookmarks (fst (handleDelete_after_select i (Some rows) s)))
   \<and> deleteError (handleDelete i (Some message) (Some rows) s) =
       Some (''Failed to delete: '' @ message)
   \<and> (i \<in> set (ids rows) \<longrightarrow>
        (\<exists>r\<in>set rows. id_bm r = i \<and>
           r \<in> set (bookmarks (handleDelete i (Some message) (Some rows) s))))
   \<and> suffix (handleBookmarkDeleted i (bookmarks s))
        (bookmarks (handleDelete i (Some message) (Some rows) s))"
proof -
  let ?view = "handleBookmarkDeleted i (bookmarks s)"
  have final: "bookmarks (handleDelete i (Some message) (Some rows) s) =
      apply_calls ?view (map RealtimeInsert rows)"
    by (simp add: handleDelete_failed bookmarks_after_select bookmarks_after_delete
        bookmarks_begin)
  have absent: "i \<notin> set (ids ?view)"
    by (simp add: delete_handlers_agree ids_delete)
  have 1: "snd (handleDelete_after_delete i (Some message) s) = [Store_select]"
    by (simp add: handleDelete_after_delete_def)
  have 2: "set (ids rows) \<subseteq> set (ids (bookmarks (fst (handleDelete_after_select i (Some rows) s))))"
    by (simp add: bookmarks_after_select ids_inserts)
  have 3: "suffix (bookmarks s) (bookmarks (fst (handleDelete_after_select i (Some rows) s)))"
    by (simp add: bookmarks_after_select suffix_inserts)
  have 4: "deleteError (handleDelete i (Some message) (Some rows) s) =
       Some (''Failed to delete: '' @ message)"
    by (simp add: handleDelete_failed deleteError_after_select deleteError_after_delete)
  have 5: "i \<in> set (ids rows) \<longrightarrow>
        (\<exists>r\<in>set rows. id_bm r = i \<and>
           r \<in> set (bookmarks (handleDelete i (Some message) (Some rows) s)))"
    unfolding final using restored_row [OF absent] by blast
  have 6: "suffix ?view (bookmarks (handleDelete i (Some message) (Some rows) s))"
    unfolding final by (rule suffix_inserts)
  from 1 2 3 4 5 6 show ?thesis
    by (simp only: deleteError_after_delete bookmarks_after_select simp_thms)
qed

lemma recovery_feeds_rows_example:
  "''b1'' \<in> set (ids [B2, B1])
   \<and> bookmarks (fst (handleDelete_begin ''b1'' S1)) = [B2]
   \<and> bookmarks (handleDelete ''b1'' (Some ''permission denied'') (Some [B2, B1]) S1) = [B1, B2]
   \<and> deleteError (handleDelete ''b1'' (Some ''permission denied'') (Some [B2, B1]) S1) =
       Some ''Failed to delete: permission denied''"
proof -
  have v: "bookmarks (handleDelete ''b1'' (Some ''permission denied'') (Some [B2, B1]) S1) = [B1, B2]"
    by (simp add: handleDelete_failed bookmarks_after_select bookmarks_after_delete
        bookmarks_begin S1_def mount_def handleBookmarkDeleted_def handleRealtimeInsert_def
        B1_def B2_def)
  have b: "bookmarks (fst (handleDelete_begin ''b1'' S1)) = [B2]"
    by (simp add: bookmarks_begin S1_def mount_def handleBookmarkDeleted_def B1_def B2_def)
  have i: "''b1'' \<in> set (ids [B2, B1])"
    by (simp add: ids_def B1_def)
  from recovery_feeds_rows [of "''b1''" "''permission denied''" S1 "[B2, B1]"] v b i
  show ?thesis by simp
qed

lemma deleteError_failed:
  "deleteError (handleDelete i (Some message) data s) = Some (''Failed to delete: '' @ message)"
  by (simp add: handleDelete_failed deleteError_after_select deleteError_after_delete)

lemma bookmarks_after_select_nothing:
  "data = None \<or> data = Some [] \<Longrightarrow>
   bookmarks (fst (handleDelete_after_select i data s)) = bookmarks s"
  by (auto simp: handleDelete_after_select_def handleDelete_end_def)

lemma shown_after_failure:
  "shown_deleteError (render_BookmarkList (handleDelete i (Some message) data s)) =
     (if bookmarks (handleDelete i (Some message) data s) = [] then None
      else Some (''Failed to delete: '' @ message))"
  by (simp add: render_BookmarkList_def deleteError_failed)

lemma recovery_shows_message_example:
  "shown_deleteError
     (render_BookmarkList (handleDelete ''b1'' (Some ''permission denied'') (Some [B2, B1]) S1)) =
   Some ''Failed to delete: permission denied''"
proof -
  have "bookmarks (handleDelete ''b1'' (Some ''permission denied'') (Some [B2, B1]) S1) \<noteq> []"
    using recovery_feeds_rows_example by simp
  then show ?thesis
    by (simp add: shown_after_failure)
qed

text \<open>
  C5. After a delete that the Store refuses, \<open>deleteError\<close> holds the message, but
  the user sees it only when the view is not empty at the end: the empty state is
  returned before the error box. So when the optimistic removal has emptied the
  view and the re-fetch returns no data or no row, the recovery ends with the
  message written and nothing of it on the page.
\<close>

theorem delete_failure_message_hidden:
  "shown_deleteError (render_BookmarkList (handleDelete i (Some message) data s)) =
     (if bookmarks (handleDelete i (Some message) data s) = [] then None
      else Some (''Failed to delete: '' @ message))
   \<and> (handleBookmarkDeleted i (bookmarks s) = [] \<and> (data = None \<or> data = Some []) \<longrightarrow>
        deleteError (handleDelete i (Some message) data s) =
          Some (''Failed to delete: '' @ message)
        \<and> bookmarks (handleDelete i (Some message) data s) = []
        \<and> render_BookmarkList (handleDelete i (Some message) data s) = Empty_state
        \<and> shown_deleteError (render_BookmarkList (handleDelete i (Some message) data s)) = None)"
proof -
  have "bookmarks (handleDelete i (Some message) data s) = []"
    if "handleBookmarkDeleted i (bookmarks s) = []" and "data = None \<or> data = Some []"
    using that
    by (simp add: handleDelete_failed bookmarks_after_select_nothing bookmarks_after_delete
        bookmarks_begin)
  then show ?thesis
    by (simp add: shown_after_failure deleteError_failed) (simp add: render_BookmarkList_def)
qed

theorem delete_failure_message_hidden_witness:
  "handleBookmarkDeleted ''b1'' (bookmarks (mount [B1])) = []
   \<and> deleteError (handleDelete ''b1'' (Some ''permission denied'') None (mount [B1])) =
        Some ''Failed to delete: permission denied''
   \<and> bookmarks (handleDelete ''b1'' (Some ''permission denied'') None (mount [B1])) = []
   \<and> render_BookmarkList (handleDelete ''b1'' (Some ''permission denied'') None (mount [B1])) =
        Empty_state
   \<and> shown_deleteError
        (render_BookmarkList (handleDelete ''b1'' (Some ''permission denied'') None (mount [B1]))) =
        None"
proof -
  have "handleBookmarkDeleted ''b1'' (bookmarks (mount [B1])) = []"
    by (simp add: mount_def handleBookmarkDeleted_def B1_def)
  with delete_failure_message_hidden
    [of "''b1''" "''permission denied''" None "mount [B1]"]
  show ?thesis by simp
qed

section \<open>Adding\<close>






section \<open>The live status\<close>

lemma forEach_realtimeStatus:
  "realtimeStatus (forEach_onRealtimeInsert rows s) = realtimeStatus s"
  by (induction rows arbitrary: s) (simp_all add: onRealtimeInsert_def)

lemma status_subscribe:
  "realtimeStatus (subscribe_callback status s) =
     (if status = ''SUBSCRIBED'' then Connected
      else if status = ''CHANNEL_ERROR'' \<or> status = ''TIMED_OUT'' then Error
      else realtimeStatus s)"
  by (simp add: subscribe_callback_def)

lemma status_step:
  "realtimeStatus (step new_URL e s) =
     (case e of
        Subscribe_status status \<Rightarrow> realtimeStatus (subscribe_callback status s)
      | _ \<Rightarrow> realtimeStatus s)"
proof (cases e)
  case Submit_clicked
  then show ?thesis
    by (simp add: handleSubmit_begin_def Let_def split: option.splits)
next
  case (GetUser_returned title_v url_v user)
  then show ?thesis
    by (simp add: handleSubmit_after_getUser_def Let_def split: option.splits)
next
  case (Insert_returned data insertError)
  then show ?thesis
    by (simp add: handleSubmit_after_insert_def onBookmarkAdded_def Let_def
        split: option.splits)
next
  case (Delete_clicked i)
  then show ?thesis
    by (simp add: handleDelete_begin_def onBookmarkDeleted_def Let_def)
next
  case (Delete_returned i err)
  then show ?thesis
    by (simp add: handleDelete_after_delete_def handleDelete_end_def split: option.splits)
next
  case (Select_returned i data)
  then show ?thesis
    by (simp add: handleDelete_after_select_def handleDelete_end_def forEach_realtimeStatus
        Let_def split: option.splits)
next
  case (Insert_payload userId newBookmark)
  then show ?thesis
    by (simp add: insert_listener_def onRealtimeInsert_def)
next
  case (Delete_payload userId old)
  then show ?thesis
    by (simp add: delete_listener_def onRealtimeDelete_def)
qed simp_all

lemma status_not_back:
  "realtimeStatus s \<noteq> Connecting \<Longrightarrow> realtimeStatus (step new_URL e s) \<noteq> Connecting"
  by (simp add: status_step status_subscribe split: event.splits)

lemma status_never_back:
  "realtimeStatus s \<noteq> Connecting \<Longrightarrow> realtimeStatus (run new_URL es s) \<noteq> Connecting"
  by (induction es arbitrary: s) (simp_all add: status_not_back)

lemma status_user_action:
  "user_action e \<Longrightarrow> realtimeStatus (step new_URL e s) = realtimeStatus s"
  by (cases e) (simp_all add: status_step del: step.simps)

lemma status_change:
  assumes "realtimeStatus (step new_URL e s) \<noteq> realtimeStatus s"
  shows "(realtimeStatus (step new_URL e s) = Connected \<and> e = Subscribe_status ''SUBSCRIBED'')
       \<or> (realtimeStatus (step new_URL e s) = Error \<and>
            (e = Subscribe_status ''CHANNEL_ERROR'' \<or> e = Subscribe_status ''TIMED_OUT''))"
proof (cases e)
  case (Subscribe_status status)
  with assms show ?thesis
    by (auto simp: status_step status_subscribe simp del: step.simps split: if_splits)
qed (use assms in \<open>simp_all add: status_step del: step.simps\<close>)

text \<open>
  C9. The status is \<^verbatim>\<open>connecting\<close> at the mount. The acknowledgement
  \<^verbatim>\<open>SUBSCRIBED\<close> makes it \<^verbatim>\<open>connected\<close>; \<^verbatim>\<open>CHANNEL_ERROR\<close> and \<^verbatim>\<open>TIMED_OUT\<close>
  make it \<^verbatim>\<open>error\<close>. Whenever an event changes the status, the new status is
  \<^verbatim>\<open>connected\<close> and the event is the acknowledgement \<^verbatim>\<open>SUBSCRIBED\<close>, or the new
  status is \<^verbatim>\<open>error\<close> and the event is one of the other two acknowledgements. No
  action of the user changes the status, and once the status is not
  \<^verbatim>\<open>connecting\<close> no run of events brings it back.
\<close>

theorem live_status_machine:
  "realtimeStatus (mount initialBookmarks) = Connecting
   \<and> realtimeStatus (step new_URL (Subscribe_status ''SUBSCRIBED'') s) = Connected
   \<and> realtimeStatus (step new_URL (Subscribe_status ''CHANNEL_ERROR'') s) = Error
   \<and> realtimeStatus (step new_URL (Subscribe_status ''TIMED_OUT'') s) = Error
   \<and> (realtimeStatus (step new_URL e s) \<noteq> realtimeStatus s \<longrightarrow>
        (realtimeStatus (step new_URL e s) = Connected \<and> e = Subscribe_status ''SUBSCRIBED'')
        \<or> (realtimeStatus (step new_URL e s) = Error \<and>
             (e = Subscribe_status ''CHANNEL_ERROR'' \<or> e = Subscribe_status ''TIMED_OUT'')))
   \<and> (user_action e' \<longrightarrow> realtimeStatus (step new_URL e' s) = realtimeStatus s)
   \<and> (realtimeStatus s' \<noteq> Connecting \<longrightarrow> realtimeStatus (run new_URL es s') \<noteq> Connecting)"
proof -
  have "realtimeStatus (mount initialBookmarks) = Connecting"
    by (simp add: mount_def)
  moreover have "realtimeStatus (step new_URL (Subscribe_status ''SUBSCRIBED'') s) = Connected"
    "realtimeStatus (step new_URL (Subscribe_status ''CHANNEL_ERROR'') s) = Error"
    "realtimeStatus (step new_URL (Subscribe_status ''TIMED_OUT'') s) = Error"
    by (simp_all add: status_subscribe)
  moreover note status_change [of new_URL e s] status_user_action [of e' new_URL s]
    status_never_back [of s' new_URL es]
  ultimately show ?thesis
    by blast
qed

theorem live_status_machine_witness:
  "realtimeStatus (step URL_simple (Subscribe_status ''SUBSCRIBED'') (mount [B1])) \<noteq>
     realtimeStatus (mount [B1])
   \<and> realtimeStatus (step URL_simple (Subscribe_status ''SUBSCRIBED'') (mount [B1])) = Connected
   \<and> user_action (Delete_clicked ''b1'')
   \<and> realtimeStatus (step URL_simple (Delete_clicked ''b1'') (mount [B1])) = Connecting
   \<and> realtimeStatus (subscribe_callback ''TIMED_OUT'' (mount [B1])) \<noteq> Connecting
   \<and> realtimeStatus
        (run URL_simple [Delete_clicked ''b1'', Subscribe_status ''CLOSED'', Title_typed ''x'']
          (subscribe_callback ''TIMED_OUT'' (mount [B1]))) \<noteq> Connecting"
proof -
  have 1: "realtimeStatus (mount [B1]) = Connecting"
    by (simp add: mount_def)
  have 2: "realtimeStatus (subscribe_callback ''TIMED_OUT'' (mount [B1])) = Error"
    by (simp add: status_subscribe)
  from live_status_machine
    [where initialBookmarks = "[B1]" and new_URL = URL_simple and s = "mount [B1]"
      and e = "Subscribe_status ''SUBSCRIBED''" and e' = "Delete_clicked ''b1''"
      and s' = "subscribe_callback ''TIMED_OUT'' (mount [B1])"
      and es = "[Delete_clicked ''b1'', Subscribe_status ''CLOSED'', Title_typed ''x'']"]
    1 2
  show ?thesis
    by (simp del: step.simps run.simps)
qed

section \<open>The listeners\<close>

text \<open>
  C10. The insert listener leaves the page as it is when the new row's owner is not
  the subscribed user, and passes the row to the insert callback when it is. The
  delete listener passes the old row's identifier to the delete callback whatever
  the subscribed user and whatever owner the old row carries: the view loses the
  rows with that identifier.
\<close>

theorem listeners_asymmetric:
  "(user_id newBookmark \<noteq> userId \<longrightarrow> insert_listener userId newBookmark s = s)
   \<and> (user_id newBookmark = userId \<longrightarrow>
        bookmarks (insert_listener userId newBookmark s) =
          handleRealtimeInsert newBookmark (bookmarks s))
   \<and> bookmarks (delete_listener userId old s) =
        handleRealtimeDelete (old_id old) (bookmarks s)
   \<and> old_id old \<notin> set (ids (bookmarks (delete_listener userId old s)))
   \<and> delete_listener userId old s = delete_listener userId' (old\<lparr>old_user_id := owner\<rparr>) s"
  by (simp add: insert_listener_def delete_listener_def onRealtimeInsert_def
      onRealtimeDelete_def ids_delete)

theorem listeners_asymmetric_witness:
  "user_id B3 \<noteq> ''alice''
   \<and> insert_listener ''alice'' B3 S1 = S1
   \<and> bookmarks S1 = [B2, B1]
   \<and> bookmarks (insert_listener ''alice'' B1 S1) = [B2, B1]
   \<and> bookmarks (delete_listener ''alice'' \<lparr>old_id = ''b1'', old_user_id = Some ''mallory''\<rparr> S1) =
        [B2]"
proof -
  have 1: "user_id B3 \<noteq> ''alice''" and 2: "user_id B1 = ''alice''"
    by (simp_all add: B3_def B1_def)
  have 3: "bookmarks S1 = [B2, B1]"
    by (simp add: S1_def mount_def)
  have 4: "handleRealtimeDelete ''b1'' [B2, B1] = [B2]"
    by (simp add: handleRealtimeDelete_def B1_def B2_def)
  have 5: "handleRealtimeInsert B1 [B2, B1] = [B2, B1]"
    by (simp add: handleRealtimeInsert_def)
  from listeners_asymmetric
    [where newBookmark = B3 and userId = "''alice''" and s = S1
      and old = "\<lparr>old_id = ''b1'', old_user_id = Some ''mallory''\<rparr>"]
    listeners_asymmetric [where newBookmark = B1 and userId = "''alice''" and s = S1]
    1 2 3 4 5
  show ?thesis
    by simp
qed

end
